theory Spec2Isabelle
  imports Main "HOL-Library.Word"
begin

section \<open>The mechanism registration shim \<open>mechanisms/single/mod_func.c\<close>\<close>

text \<open>
  The file declares two imported globals of type \<open>int\<close>, nineteen external procedures
  \<open>void _X_reg()\<close>, and defines one procedure \<open>void modl_reg()\<close>. Its body is a nested
  conditional around twenty-one \<open>fprintf(stderr, ...)\<close> statements, followed by the nineteen
  calls. Nothing else is in the file.
\<close>

subsection \<open>Data\<close>

text \<open>
  The nineteen external procedures, in the order of their \<open>extern\<close> declarations
  (lines 6 to 24). The leading underscore of the C names is dropped: \<open>Im_reg\<close> stands for
  \<open>_Im_reg\<close>, and so on.
\<close>

datatype reg_fn =
    Im_reg | bk_reg | cadyn_reg | cal12_reg | cal13_reg | caldyn_reg | can_reg
  | car_reg | cav32_reg | cav33_reg | gaba_reg | glutamate_reg | kaf_reg | kas_reg
  | kdr_reg | kir_reg | naf_reg | sk_reg | vecevent_reg

text \<open>
  The part of the process the procedure can touch: the two imported globals
  (\<open>IMPORT int nrnmpi_myid, nrn_nobanner_;\<close>, C \<open>int\<close> being 32 bits wide, read as two's
  complement; the field \<open>nrn_nobanner\<close> is the global \<open>nrn_nobanner_\<close>, since a name
  cannot end in an underscore here), the characters written to the standard error stream
  so far, and the rest of the host runtime, about which the file says nothing (the type
  parameter).
\<close>

record 'h world =
  nrnmpi_myid :: "32 word"
  nrn_nobanner :: "32 word"
  stderr :: string
  host :: 'h

text \<open>
  What \<open>modl_reg\<close> itself does to its surroundings is one of two things: an
  \<open>fprintf(stderr, s)\<close> with a constant format string, or a call of one of the external
  procedures. A run records them in order, next to the world they act on.
\<close>

datatype event = is_Fprintf: Fprintf string | is_Call: Call reg_fn

record 'h run =
  now :: "'h world"
  trace :: "event list"

text \<open>
  The external procedures are opaque: each takes no argument, returns nothing, and may
  change anything in the world, the two globals and the error stream included. Their
  behaviour is a parameter of the model. Each is taken to return to its caller: a callee
  that ends the process or never returns is outside the model.
\<close>

type_synonym 'h externs = "reg_fn \<Rightarrow> 'h world \<Rightarrow> 'h world"

subsection \<open>Statements\<close>

text \<open>\<open>fprintf(stderr, s)\<close> for a format string without conversions: append \<open>s\<close>.\<close>

definition fprintf_stderr :: "string \<Rightarrow> 'h run \<Rightarrow> 'h run" where
  "fprintf_stderr s r =
     r\<lparr>now := (now r)\<lparr>stderr := stderr (now r) @ s\<rparr>, trace := trace r @ [Fprintf s]\<rparr>"

text \<open>A call \<open>_X_reg();\<close>: the callee runs on the current world; nothing is returned.\<close>

definition call :: "'h externs \<Rightarrow> reg_fn \<Rightarrow> 'h run \<Rightarrow> 'h run" where
  "call ext f r = r\<lparr>now := ext f (now r), trace := trace r @ [Call f]\<rparr>"

text \<open>A sequence of statements, executed first to last.\<close>

definition block :: "('s \<Rightarrow> 's) list \<Rightarrow> 's \<Rightarrow> 's" where
  "block stmts = fold (\<lambda>stmt. stmt) stmts"

subsection \<open>The procedure \<open>modl_reg\<close>\<close>

text \<open>
  Lines 26 to 70. The test \<open>!nrn_nobanner_\<close> holds when the flag is zero; the comparison
  \<open>nrnmpi_myid < 1\<close> is a signed one.
\<close>

definition modl_reg :: "'h externs \<Rightarrow> 'h run \<Rightarrow> 'h run" where
  "modl_reg ext = block [
     (\<lambda>r. if nrn_nobanner (now r) = 0 then
             if nrnmpi_myid (now r) <s 1 then
               block [
                 fprintf_stderr ''Additional mechanisms from files\<newline>'',
                 fprintf_stderr '' Im.mod'',
                 fprintf_stderr '' bk.mod'',
                 fprintf_stderr '' cadyn.mod'',
                 fprintf_stderr '' cal12.mod'',
                 fprintf_stderr '' cal13.mod'',
                 fprintf_stderr '' caldyn.mod'',
                 fprintf_stderr '' can.mod'',
                 fprintf_stderr '' car.mod'',
                 fprintf_stderr '' cav32.mod'',
                 fprintf_stderr '' cav33.mod'',
                 fprintf_stderr '' gaba.mod'',
                 fprintf_stderr '' glutamate.mod'',
                 fprintf_stderr '' kaf.mod'',
                 fprintf_stderr '' kas.mod'',
                 fprintf_stderr '' kdr.mod'',
                 fprintf_stderr '' kir.mod'',
                 fprintf_stderr '' naf.mod'',
                 fprintf_stderr '' sk.mod'',
                 fprintf_stderr '' vecevent.mod'',
                 fprintf_stderr ''\<newline>''] r
             else r
           else r),
     call ext Im_reg,
     call ext bk_reg,
     call ext cadyn_reg,
     call ext cal12_reg,
     call ext cal13_reg,
     call ext caldyn_reg,
     call ext can_reg,
     call ext car_reg,
     call ext cav32_reg,
     call ext cav33_reg,
     call ext gaba_reg,
     call ext glutamate_reg,
     call ext kaf_reg,
     call ext kas_reg,
     call ext kdr_reg,
     call ext kir_reg,
     call ext naf_reg,
     call ext sk_reg,
     call ext vecevent_reg]"


subsection \<open>Observations\<close>

text \<open>The calls of \<open>modl_reg\<close>, in the order of lines 52 to 70.\<close>

definition registrations :: "reg_fn list" where
  "registrations =
     [Im_reg, bk_reg, cadyn_reg, cal12_reg, cal13_reg, caldyn_reg, can_reg, car_reg,
      cav32_reg, cav33_reg, gaba_reg, glutamate_reg, kaf_reg, kas_reg, kdr_reg, kir_reg,
      naf_reg, sk_reg, vecevent_reg]"

text \<open>
  The mechanism file names of the banner, in the order of lines 31 to 49; the \<open>n\<close>-th name
  is that of the \<open>n\<close>-th procedure, \<open>X.mod\<close> for \<open>_X_reg\<close>.
\<close>

definition mod_files :: "string list" where
  "mod_files =
     [''Im.mod'', ''bk.mod'', ''cadyn.mod'', ''cal12.mod'', ''cal13.mod'', ''caldyn.mod'',
      ''can.mod'', ''car.mod'', ''cav32.mod'', ''cav33.mod'', ''gaba.mod'', ''glutamate.mod'',
      ''kaf.mod'', ''kas.mod'', ''kdr.mod'', ''kir.mod'', ''naf.mod'', ''sk.mod'',
      ''vecevent.mod'']"

text \<open>The gate of line 28.\<close>

definition banner_cond :: "'h world \<Rightarrow> bool" where
  "banner_cond w = (nrn_nobanner w = 0 \<and> nrnmpi_myid w <s 1)"

text \<open>The strings of the \<open>fprintf\<close> statements of lines 29 to 50, one per statement.\<close>

definition header :: string where
  "header = ''Additional mechanisms from files''"

definition banner_writes :: "string list" where
  "banner_writes =
     (header @ ''\<newline>'') # map (\<lambda>name. CHR '' '' # name) mod_files @ [''\<newline>'']"

text \<open>One invocation from a world \<open>w\<close>: what it does, and the world it leaves.\<close>

definition events :: "'h externs \<Rightarrow> 'h world \<Rightarrow> event list" where
  "events ext w = trace (modl_reg ext \<lparr>now = w, trace = []\<rparr>)"

definition after :: "'h externs \<Rightarrow> 'h world \<Rightarrow> 'h world" where
  "after ext w = now (modl_reg ext \<lparr>now = w, trace = []\<rparr>)"

fun calls_of :: "event list \<Rightarrow> reg_fn list" where
  "calls_of [] = []"
| "calls_of (Call f # es) = f # calls_of es"
| "calls_of (Fprintf s # es) = calls_of es"

fun output_of :: "event list \<Rightarrow> string" where
  "output_of [] = []"
| "output_of (Fprintf s # es) = s @ output_of es"
| "output_of (Call f # es) = output_of es"

text \<open>\<open>n\<close> invocations in a row, each starting in the world the one before left.\<close>

definition modl_reg_times :: "nat \<Rightarrow> 'h externs \<Rightarrow> 'h world \<Rightarrow> event list" where
  "modl_reg_times n ext w = trace ((modl_reg ext ^^ n) \<lparr>now = w, trace = []\<rparr>)"

text \<open>The world that \<open>n\<close> invocations in a row leave.\<close>

definition after_times :: "nat \<Rightarrow> 'h externs \<Rightarrow> 'h world \<Rightarrow> 'h world" where
  "after_times n ext w = now ((modl_reg ext ^^ n) \<lparr>now = w, trace = []\<rparr>)"

text \<open>
  The banner as the specification words it: one line, each of the nineteen names prefixed
  by a single space, terminated by one newline. This definition follows the specification,
  not the code; it is compared with what the code writes.
\<close>

definition spec_banner_line :: string where
  "spec_banner_line = concat (map (\<lambda>name. CHR '' '' # name) mod_files) @ ''\<newline>''"

subsection \<open>Sample surroundings\<close>

text \<open>
  A world with given values of the two globals, an empty error stream and no host state;
  external procedures that do nothing; external procedures that append themselves to a
  registry kept by the host; and external procedures that overwrite both globals and write
  to the error stream themselves.
\<close>

definition world_with :: "32 word \<Rightarrow> 32 word \<Rightarrow> unit world" where
  "world_with myid nobanner =
     \<lparr>nrnmpi_myid = myid, nrn_nobanner = nobanner, stderr = [], host = ()\<rparr>"

definition idle :: "'h externs" where
  "idle f w = w"

definition register :: "(reg_fn list) externs" where
  "register f w = w\<lparr>host := host w @ [f]\<rparr>"

definition meddle :: "'h externs" where
  "meddle f w = w\<lparr>nrnmpi_myid := 7, nrn_nobanner := 1, stderr := stderr w @ ''registered''\<rparr>"

section \<open>Characterisation of one invocation\<close>

lemma trace_modl_reg:
  "trace (modl_reg ext r) =
     trace r @ (if banner_cond (now r) then map Fprintf banner_writes else [])
       @ map Call registrations"
  by (simp add: modl_reg_def block_def fprintf_stderr_def call_def banner_cond_def
      banner_writes_def registrations_def header_def mod_files_def)

lemma now_modl_reg:
  "now (modl_reg ext r) =
     fold ext registrations
       (if banner_cond (now r) then (now r)\<lparr>stderr := stderr (now r) @ concat banner_writes\<rparr>
        else now r)"
  by (simp add: modl_reg_def block_def fprintf_stderr_def call_def banner_cond_def
      banner_writes_def registrations_def header_def mod_files_def)

lemma events_eq:
  "events ext w =
     (if banner_cond w then map Fprintf banner_writes else []) @ map Call registrations"
  by (simp add: events_def trace_modl_reg)

lemma after_eq:
  "after ext w =
     fold ext registrations
       (if banner_cond w then w\<lparr>stderr := stderr w @ concat banner_writes\<rparr> else w)"
  by (simp add: after_def now_modl_reg)

subsection \<open>Reading a trace\<close>

lemma calls_of_append: "calls_of (es @ es') = calls_of es @ calls_of es'"
  by (induction es rule: calls_of.induct) simp_all

lemma calls_of_Fprintf: "calls_of (map Fprintf ss) = []"
  by (induction ss) simp_all

lemma calls_of_Call: "calls_of (map Call fs) = fs"
  by (induction fs) simp_all

lemma output_of_append: "output_of (es @ es') = output_of es @ output_of es'"
  by (induction es rule: output_of.induct) simp_all

lemma output_of_Fprintf: "output_of (map Fprintf ss) = concat ss"
  by (induction ss) simp_all

lemma output_of_Call: "output_of (map Call fs) = []"
  by (induction fs) simp_all

lemma calls_of_events: "calls_of (events ext w) = registrations"
  by (simp add: events_eq calls_of_append calls_of_Fprintf calls_of_Call)

lemma output_of_events:
  "output_of (events ext w) = (if banner_cond w then concat banner_writes else [])"
  by (simp add: events_eq output_of_append output_of_Fprintf output_of_Call)

lemma count_registrations: "count_list registrations f = 1"
  by (cases f) (simp_all add: registrations_def)

lemma filter_Fprintf_events:
  "filter is_Fprintf (events ext w) = (if banner_cond w then map Fprintf banner_writes else [])"
  by (simp add: events_eq filter_map comp_def)

lemma banner_cond_iff: "banner_cond w = (nrn_nobanner w = 0 \<and> nrnmpi_myid w <s 1)"
  by (simp add: banner_cond_def)

subsection \<open>The text of the banner\<close>

lemma banner_text_literal:
  "concat banner_writes =
     ''Additional mechanisms from files\<newline>'' @
     '' Im.mod bk.mod cadyn.mod cal12.mod cal13.mod caldyn.mod can.mod car.mod'' @
     '' cav32.mod cav33.mod gaba.mod glutamate.mod kaf.mod kas.mod kdr.mod kir.mod'' @
     '' naf.mod sk.mod vecevent.mod\<newline>''"
  by (simp add: banner_writes_def header_def mod_files_def)

lemma concat_banner_writes: "concat banner_writes = header @ ''\<newline>'' @ spec_banner_line"
  by (simp add: banner_writes_def spec_banner_line_def)

subsection \<open>The error stream and the world after the call\<close>

lemma fold_preserves:
  assumes "\<And>f v. P (ext f v) = P v"
  shows "P (fold ext fs w) = P w"
  using assms by (induction fs arbitrary: w) simp_all

text \<open>
  When the callees leave the error stream alone, what the stream gains during the call is
  what the trace records.
\<close>

lemma stderr_after:
  assumes "\<And>f v. stderr (ext f v) = stderr v"
  shows "stderr (after ext w) = stderr w @ output_of (events ext w)"
proof -
  have "stderr (fold ext registrations v) = stderr v" for v
    using assms by (rule fold_preserves)
  then show ?thesis
    by (simp add: after_eq output_of_events)
qed

subsection \<open>Traces of writes followed by calls\<close>

lemma writes_precede_calls:
  assumes "i < length (map Fprintf ss @ map Call fs)"
    and "j < length (map Fprintf ss @ map Call fs)"
    and "is_Fprintf ((map Fprintf ss @ map Call fs) ! i)"
    and "is_Call ((map Fprintf ss @ map Call fs) ! j)"
  shows "i < j"
proof -
  have "i < length ss"
    using assms(1,3) by (cases "i < length ss") (simp_all add: nth_append)
  moreover have "length ss \<le> j"
    using assms(2,4) by (cases "j < length ss") (simp_all add: nth_append)
  ultimately show ?thesis by simp
qed

subsection \<open>Repeated invocation\<close>

lemma calls_of_trace_modl_reg:
  "calls_of (trace (modl_reg ext r)) = calls_of (trace r) @ registrations"
  by (simp add: trace_modl_reg calls_of_append calls_of_Fprintf calls_of_Call)

lemma calls_of_trace_funpow:
  "calls_of (trace ((modl_reg ext ^^ n) r)) =
     calls_of (trace r) @ concat (replicate n registrations)"
proof (induction n)
  case 0
  show ?case by simp
next
  case (Suc n)
  have "concat (replicate n registrations) @ registrations =
      concat (replicate (Suc n) registrations)"
    by (induction n) simp_all
  with Suc show ?case
    by (simp add: calls_of_trace_modl_reg)
qed

lemma count_list_concat_replicate:
  "count_list (concat (replicate n xs)) x = n * count_list xs x"
  by (induction n) simp_all

subsection \<open>What the sample callees leave behind, and repeated worlds\<close>

lemma fold_register: "fold register fs v = v\<lparr>host := host v @ fs\<rparr>"
  by (induction fs arbitrary: v) (simp_all add: register_def)

lemma fold_idle: "fold idle fs v = v"
  by (induction fs) (simp_all add: idle_def)

lemma host_after_register: "host (after register v) = host v @ registrations"
  by (simp add: after_eq fold_register)

lemma now_funpow:
  "now ((modl_reg ext ^^ n) r) =
     ((\<lambda>v. fold ext registrations
        (if banner_cond v then v\<lparr>stderr := stderr v @ concat banner_writes\<rparr> else v)) ^^ n)
       (now r)"
  by (induction n) (simp_all add: now_modl_reg)

lemma host_funpow_register:
  "host (now ((modl_reg register ^^ n) r)) = host (now r) @ concat (replicate n registrations)"
proof (induction n)
  case 0
  show ?case by simp
next
  case (Suc n)
  have "concat (replicate n registrations) @ registrations =
      concat (replicate (Suc n) registrations)"
    by (induction n) simp_all
  with Suc show ?case
    by (simp add: now_modl_reg fold_register)
qed

section \<open>The registration sequence\<close>

text \<open>
  C1. Every invocation of \<open>modl_reg\<close> calls each of the nineteen registration procedures
  exactly once, in the order \<open>_Im_reg\<close>, ..., \<open>_vecevent_reg\<close>, whatever the values of
  \<open>nrn_nobanner_\<close> and \<open>nrnmpi_myid\<close> in the world it starts from (and whatever the
  procedures do). Each call runs its callee: the world after the invocation is the one
  the nineteen callees produce, applied one after the other in that order, and with
  callees that append themselves to a registry of the host the registry gains exactly
  the nineteen entries, in order, one of each.
\<close>

theorem modl_reg_calls_each_once_in_order:
  "calls_of (events ext w) =
     [Im_reg, bk_reg, cadyn_reg, cal12_reg, cal13_reg, caldyn_reg, can_reg, car_reg,
      cav32_reg, cav33_reg, gaba_reg, glutamate_reg, kaf_reg, kas_reg, kdr_reg, kir_reg,
      naf_reg, sk_reg, vecevent_reg]
   \<and> count_list (calls_of (events ext w)) f = 1
   \<and> after ext w =
       fold ext
         [Im_reg, bk_reg, cadyn_reg, cal12_reg, cal13_reg, caldyn_reg, can_reg, car_reg,
          cav32_reg, cav33_reg, gaba_reg, glutamate_reg, kaf_reg, kas_reg, kdr_reg, kir_reg,
          naf_reg, sk_reg, vecevent_reg]
         (if nrn_nobanner w = 0 \<and> nrnmpi_myid w <s 1
          then w\<lparr>stderr := stderr w @ concat banner_writes\<rparr> else w)
   \<and> host (after register v) =
       host v @
         [Im_reg, bk_reg, cadyn_reg, cal12_reg, cal13_reg, caldyn_reg, can_reg, car_reg,
          cav32_reg, cav33_reg, gaba_reg, glutamate_reg, kaf_reg, kas_reg, kdr_reg, kir_reg,
          naf_reg, sk_reg, vecevent_reg]
   \<and> count_list (host (after register v)) f = count_list (host v) f + 1"
proof -
  have regs: "[Im_reg, bk_reg, cadyn_reg, cal12_reg, cal13_reg, caldyn_reg, can_reg, car_reg,
      cav32_reg, cav33_reg, gaba_reg, glutamate_reg, kaf_reg, kas_reg, kdr_reg, kir_reg,
      naf_reg, sk_reg, vecevent_reg] = registrations"
    by (simp add: registrations_def)
  have "after ext w =
      fold ext registrations
        (if nrn_nobanner w = 0 \<and> nrnmpi_myid w <s 1
         then w\<lparr>stderr := stderr w @ concat banner_writes\<rparr> else w)"
    by (simp add: after_eq banner_cond_def)
  moreover have "host (after register v) = host v @ registrations"
    by (rule host_after_register)
  moreover have "count_list (host (after register v)) f = count_list (host v) f + 1"
    by (simp only: host_after_register count_list_append count_registrations)
  ultimately show ?thesis
    unfolding regs
    by (simp only: calls_of_events count_registrations simp_thms)
qed

section \<open>The banner\<close>

text \<open>
  C2. The banner is written if and only if \<open>nrn_nobanner_\<close> is zero and
  \<open>nrnmpi_myid < 1\<close>: exactly then does \<open>modl_reg\<close> execute an \<open>fprintf\<close> and produce
  output; under every other combination of the two globals it executes none and its
  diagnostic output is empty. The text reaches the error stream: the callees start from a
  world whose stream has gained the banner exactly in that case, and when they leave the
  stream alone, the stream after the call differs from the stream before it exactly in
  that case, by the banner.
\<close>

theorem banner_written_iff:
  "(filter is_Fprintf (events ext w) \<noteq> []) = (nrn_nobanner w = 0 \<and> nrnmpi_myid w <s 1)
   \<and> (output_of (events ext w) \<noteq> []) = (nrn_nobanner w = 0 \<and> nrnmpi_myid w <s 1)
   \<and> (filter is_Fprintf (events ext w) = [] \<and> output_of (events ext w) = [])
        = (\<not> (nrn_nobanner w = 0 \<and> nrnmpi_myid w <s 1))
   \<and> after ext w =
       fold ext registrations
         (if nrn_nobanner w = 0 \<and> nrnmpi_myid w <s 1
          then w\<lparr>stderr := stderr w @ concat banner_writes\<rparr> else w)
   \<and> concat banner_writes \<noteq> []
   \<and> ((\<forall>f v. stderr (ext f v) = stderr v) \<longrightarrow>
        stderr (after ext w) =
          stderr w @ (if nrn_nobanner w = 0 \<and> nrnmpi_myid w <s 1
                      then concat banner_writes else [])
        \<and> (stderr (after ext w) \<noteq> stderr w) = (nrn_nobanner w = 0 \<and> nrnmpi_myid w <s 1))"
proof -
  have tr: "(filter is_Fprintf (events ext w) \<noteq> []) = (nrn_nobanner w = 0 \<and> nrnmpi_myid w <s 1)
      \<and> (output_of (events ext w) \<noteq> []) = (nrn_nobanner w = 0 \<and> nrnmpi_myid w <s 1)
      \<and> (filter is_Fprintf (events ext w) = [] \<and> output_of (events ext w) = [])
        = (\<not> (nrn_nobanner w = 0 \<and> nrnmpi_myid w <s 1))"
    by (simp add: filter_Fprintf_events output_of_events banner_cond_iff banner_writes_def)
  have ne: "concat banner_writes \<noteq> []"
    by (simp add: banner_writes_def header_def)
  have af: "after ext w =
       fold ext registrations
         (if nrn_nobanner w = 0 \<and> nrnmpi_myid w <s 1
          then w\<lparr>stderr := stderr w @ concat banner_writes\<rparr> else w)"
    by (simp add: after_eq banner_cond_def)
  have st: "stderr (after ext w) =
          stderr w @ (if nrn_nobanner w = 0 \<and> nrnmpi_myid w <s 1
                      then concat banner_writes else [])
        \<and> (stderr (after ext w) \<noteq> stderr w) = (nrn_nobanner w = 0 \<and> nrnmpi_myid w <s 1)"
    if "\<forall>f v. stderr (ext f v) = stderr v"
  proof -
    have "stderr (after ext w) = stderr w @ output_of (events ext w)"
      using that by (intro stderr_after) simp
    then show ?thesis
      using ne by (simp add: output_of_events banner_cond_def)
  qed
  show ?thesis using tr ne af st by blast
qed

theorem banner_written_iff_witness:
  "filter is_Fprintf (events idle (world_with 0 0)) \<noteq> []
   \<and> output_of (events idle (world_with 0 0)) \<noteq> []
   \<and> output_of (events idle (world_with 1 0)) = []
   \<and> output_of (events idle (world_with 0 1)) = []
   \<and> output_of (events idle (world_with 1 1)) = []
   \<and> (\<forall>f v. stderr (idle f v :: unit world) = stderr v)
   \<and> stderr (after idle (world_with 0 0)) =
       ''Additional mechanisms from files\<newline>'' @
       '' Im.mod bk.mod cadyn.mod cal12.mod cal13.mod caldyn.mod can.mod car.mod'' @
       '' cav32.mod cav33.mod gaba.mod glutamate.mod kaf.mod kas.mod kdr.mod kir.mod'' @
       '' naf.mod sk.mod vecevent.mod\<newline>''
   \<and> stderr (after idle (world_with 1 0)) = []
   \<and> stderr (after idle (world_with 0 1)) = []
   \<and> stderr (after idle (world_with 1 1)) = []"
proof -
  have idle: "\<forall>f v. stderr (idle f v :: unit world) = stderr v"
    by (simp add: idle_def)
  show ?thesis
    using idle banner_written_iff [of idle "world_with 0 0"]
      banner_written_iff [of idle "world_with 1 0"]
      banner_written_iff [of idle "world_with 0 1"]
      banner_written_iff [of idle "world_with 1 1"]
    by (simp add: world_with_def word_sless_alt banner_text_literal fold_idle)
qed






text \<open>
  C10. The gate is the signed test \<open>nrnmpi_myid < 1\<close>, not \<open>nrnmpi_myid == 0\<close>: for every
  negative rank, with \<open>nrn_nobanner_\<close> zero, \<open>modl_reg\<close> prints the banner, and does exactly
  what it does at rank 0. The banner is appended to the error stream before the callees
  run, and is what the stream has gained after the call when the callees leave it alone.
\<close>

theorem negative_rank_prints_banner:
  assumes "nrn_nobanner w = 0" and "nrnmpi_myid w <s 0"
  shows "output_of (events ext w) = concat banner_writes
         \<and> output_of (events ext w) \<noteq> []
         \<and> events ext w = events ext (w\<lparr>nrnmpi_myid := 0\<rparr>)
         \<and> after ext w =
             fold ext registrations (w\<lparr>stderr := stderr w @ concat banner_writes\<rparr>)
         \<and> ((\<forall>f v. stderr (ext f v) = stderr v) \<longrightarrow>
              stderr (after ext w) = stderr w @ concat banner_writes)"
proof -
  have "nrnmpi_myid w <s 1"
    using assms(2) by (simp add: word_sless_alt)
  then have c: "banner_cond w" and c0: "banner_cond (w\<lparr>nrnmpi_myid := 0\<rparr>)"
    using assms(1) by (simp_all add: banner_cond_def word_sless_alt)
  have out: "output_of (events ext w) = concat banner_writes"
    using c by (simp add: output_of_events)
  have ne: "concat banner_writes \<noteq> []"
    by (simp add: banner_writes_def header_def)
  have ev: "events ext w = events ext (w\<lparr>nrnmpi_myid := 0\<rparr>)"
    using c c0 by (simp add: events_eq)
  have af: "after ext w =
      fold ext registrations (w\<lparr>stderr := stderr w @ concat banner_writes\<rparr>)"
    using c by (simp add: after_eq)
  have st: "stderr (after ext w) = stderr w @ concat banner_writes"
    if "\<forall>f v. stderr (ext f v) = stderr v"
  proof -
    have "stderr (after ext w) = stderr w @ output_of (events ext w)"
      using that by (intro stderr_after) simp
    then show ?thesis by (simp only: out)
  qed
  show ?thesis using out ne ev af st by (simp only: simp_thms) blast
qed

theorem negative_rank_prints_banner_witness:
  "nrn_nobanner (world_with (- 1) 0) = 0 \<and> nrnmpi_myid (world_with (- 1) 0) <s 0
   \<and> (\<forall>f v. stderr (idle f v :: unit world) = stderr v)
   \<and> output_of (events idle (world_with (- 1) 0)) =
       ''Additional mechanisms from files\<newline>'' @
       '' Im.mod bk.mod cadyn.mod cal12.mod cal13.mod caldyn.mod can.mod car.mod'' @
       '' cav32.mod cav33.mod gaba.mod glutamate.mod kaf.mod kas.mod kdr.mod kir.mod'' @
       '' naf.mod sk.mod vecevent.mod\<newline>''
   \<and> stderr (after idle (world_with (- 1) 0)) =
       ''Additional mechanisms from files\<newline>'' @
       '' Im.mod bk.mod cadyn.mod cal12.mod cal13.mod caldyn.mod can.mod car.mod'' @
       '' cav32.mod cav33.mod gaba.mod glutamate.mod kaf.mod kas.mod kdr.mod kir.mod'' @
       '' naf.mod sk.mod vecevent.mod\<newline>''"
proof -
  have h1: "nrn_nobanner (world_with (- 1) 0) = 0"
    by (simp add: world_with_def)
  have h2: "nrnmpi_myid (world_with (- 1) 0) <s 0"
    by (simp add: world_with_def word_sless_alt)
  have idle: "\<forall>f v. stderr (idle f v :: unit world) = stderr v"
    by (simp add: idle_def)
  note t = negative_rank_prints_banner [OF h1 h2, of idle]
  have out: "output_of (events idle (world_with (- 1) 0)) = concat banner_writes"
    using t by (rule conjunct1)
  have "stderr (after idle (world_with (- 1) 0)) =
      stderr (world_with (- 1) 0) @ concat banner_writes"
    using t idle by blast
  then have st: "stderr (after idle (world_with (- 1) 0)) = concat banner_writes"
    by (simp add: world_with_def)
  show ?thesis
    using h1 h2 idle out st by (simp only: banner_text_literal simp_thms)
qed

section \<open>Order of effects\<close>

text \<open>
  C4. When \<open>nrn_nobanner_\<close> is zero and \<open>nrnmpi_myid < 1\<close>, the invocation is the
  twenty-one writes of the banner followed by the nineteen calls: every write comes before
  every call, and the first callee already runs in a world whose error stream holds the
  whole banner.
\<close>

theorem banner_complete_before_first_call:
  assumes "nrn_nobanner w = 0" and "nrnmpi_myid w <s 1"
  shows "events ext w = map Fprintf banner_writes @ map Call registrations
         \<and> (\<forall>i j. i < length (events ext w) \<and> j < length (events ext w)
               \<and> is_Fprintf (events ext w ! i) \<and> is_Call (events ext w ! j) \<longrightarrow> i < j)
         \<and> after ext w =
             fold ext registrations (w\<lparr>stderr := stderr w @ concat banner_writes\<rparr>)"
proof -
  have c: "banner_cond w" using assms by (simp add: banner_cond_def)
  then have ev: "events ext w = map Fprintf banner_writes @ map Call registrations"
    by (simp add: events_eq)
  have "\<forall>i j. i < length (events ext w) \<and> j < length (events ext w)
      \<and> is_Fprintf (events ext w ! i) \<and> is_Call (events ext w ! j) \<longrightarrow> i < j"
    unfolding ev using writes_precede_calls by blast
  moreover have "after ext w =
      fold ext registrations (w\<lparr>stderr := stderr w @ concat banner_writes\<rparr>)"
    using c by (simp add: after_eq)
  ultimately show ?thesis using ev by blast
qed

theorem banner_complete_before_first_call_witness:
  "nrn_nobanner (world_with 0 0) = 0 \<and> nrnmpi_myid (world_with 0 0) <s 1
   \<and> take 21 (events idle (world_with 0 0)) = map Fprintf banner_writes
   \<and> drop 21 (events idle (world_with 0 0)) = map Call registrations"
  using banner_complete_before_first_call [of "world_with 0 0" idle]
  by (simp add: world_with_def word_sless_alt banner_writes_def mod_files_def)

section \<open>Repeated invocation\<close>

text \<open>
  C5. \<open>modl_reg\<close> is not idempotent: \<open>n\<close> invocations in a row run the whole registration
  sequence \<open>n\<close> times, so each of the nineteen procedures is called exactly \<open>n\<close> times. The
  callees run each time: the world after \<open>n\<close> invocations is \<open>n\<close> rounds of the gate
  followed by the nineteen callees, and with callees that append themselves to a registry
  of the host the registry gains \<open>n\<close> full rounds, \<open>n\<close> entries of each procedure.
\<close>

theorem modl_reg_not_idempotent:
  "calls_of (modl_reg_times n ext w) = concat (replicate n registrations)
   \<and> count_list (calls_of (modl_reg_times n ext w)) f = n
   \<and> after_times n ext w =
       ((\<lambda>v. fold ext registrations
          (if nrn_nobanner v = 0 \<and> nrnmpi_myid v <s 1
           then v\<lparr>stderr := stderr v @ concat banner_writes\<rparr> else v)) ^^ n) w
   \<and> host (after_times n register v) = host v @ concat (replicate n registrations)
   \<and> count_list (host (after_times n register v)) f = count_list (host v) f + n"
proof -
  have "after_times n ext w =
       ((\<lambda>v. fold ext registrations
          (if nrn_nobanner v = 0 \<and> nrnmpi_myid v <s 1
           then v\<lparr>stderr := stderr v @ concat banner_writes\<rparr> else v)) ^^ n) w"
    using now_funpow [where ext = ext and n = n and r = "\<lparr>now = w, trace = []\<rparr>"]
    by (simp add: after_times_def banner_cond_def)
  moreover have "host (after_times n register v) = host v @ concat (replicate n registrations)"
    by (simp add: after_times_def host_funpow_register)
  ultimately show ?thesis
    by (simp add: modl_reg_times_def calls_of_trace_funpow count_list_concat_replicate
        count_registrations)
qed

section \<open>What the procedure reads, writes and ignores\<close>

text \<open>
  C6, as amended. \<open>modl_reg\<close> only reads \<open>nrn_nobanner_\<close> and \<open>nrnmpi_myid\<close>: none of its
  own statements assigns to them. For every invocation and every initial value of the
  globals, if the registration procedures leave the two globals unchanged, their values
  after \<open>modl_reg\<close> returns equal their values before the call.
\<close>

theorem modl_reg_globals_read_only:
  assumes "\<forall>f v. nrn_nobanner (ext f v) = nrn_nobanner v
                \<and> nrnmpi_myid (ext f v) = nrnmpi_myid v"
  shows "nrn_nobanner (after ext w) = nrn_nobanner w
         \<and> nrnmpi_myid (after ext w) = nrnmpi_myid w"
proof -
  have "nrn_nobanner (fold ext registrations v) = nrn_nobanner v" for v
    using assms by (intro fold_preserves) simp
  moreover have "nrnmpi_myid (fold ext registrations v) = nrnmpi_myid v" for v
    using assms by (intro fold_preserves) simp
  ultimately show ?thesis
    by (simp add: after_eq)
qed

theorem modl_reg_globals_read_only_witness:
  "(\<forall>f v. nrn_nobanner (register f v) = nrn_nobanner v
        \<and> nrnmpi_myid (register f v) = nrnmpi_myid v)
   \<and> nrn_nobanner
        (after register \<lparr>nrnmpi_myid = 0, nrn_nobanner = 0, stderr = [], host = []\<rparr>) = 0
   \<and> nrnmpi_myid
        (after register \<lparr>nrnmpi_myid = 0, nrn_nobanner = 0, stderr = [], host = []\<rparr>) = 0
   \<and> nrn_nobanner
        (after register \<lparr>nrnmpi_myid = 3, nrn_nobanner = 5, stderr = [], host = []\<rparr>) = 5
   \<and> nrnmpi_myid
        (after register \<lparr>nrnmpi_myid = 3, nrn_nobanner = 5, stderr = [], host = []\<rparr>) = 3"
  using modl_reg_globals_read_only
    [of register "\<lparr>nrnmpi_myid = 0, nrn_nobanner = 0, stderr = [], host = []\<rparr>"]
    modl_reg_globals_read_only
    [of register "\<lparr>nrnmpi_myid = 3, nrn_nobanner = 5, stderr = [], host = []\<rparr>"]
  by (simp add: register_def)

text \<open>
  Without the condition on the callees the statement fails: the callees are external and
  run inside the call, and nothing in \<open>modl_reg\<close> restores the globals after them. With
  callees that overwrite both globals, an invocation from rank 0 with the banner enabled
  returns with rank 7 and the flag set.
\<close>

theorem globals_overwritten_by_callee_counterexample:
  "nrnmpi_myid (world_with 0 0) = 0 \<and> nrn_nobanner (world_with 0 0) = 0
   \<and> nrnmpi_myid (after meddle (world_with 0 0)) = 7
   \<and> nrn_nobanner (after meddle (world_with 0 0)) = 1
   \<and> nrnmpi_myid (after meddle (world_with 0 0)) \<noteq> nrnmpi_myid (world_with 0 0)
   \<and> nrn_nobanner (after meddle (world_with 0 0)) \<noteq> nrn_nobanner (world_with 0 0)"
  by (simp add: after_eq registrations_def meddle_def world_with_def)


text \<open>
  C9. \<open>modl_reg\<close> is deterministic in the two globals: two invocations that start with
  equal values of \<open>nrn_nobanner_\<close> and \<open>nrnmpi_myid\<close> write the same diagnostic output and
  make the same sequence of registration calls, whatever else differs between the two
  worlds and the two sets of callees.
\<close>

theorem modl_reg_deterministic:
  assumes "nrn_nobanner w = nrn_nobanner w'" and "nrnmpi_myid w = nrnmpi_myid w'"
  shows "output_of (events ext w) = output_of (events ext' w')
         \<and> calls_of (events ext w) = calls_of (events ext' w')
         \<and> events ext w = events ext' w'"
proof -
  have "banner_cond w = banner_cond w'"
    using assms by (simp add: banner_cond_def)
  then have "events ext w = events ext' w'"
    by (simp add: events_eq)
  then show ?thesis by simp
qed

theorem modl_reg_deterministic_witness:
  "nrn_nobanner (world_with 0 0) =
     nrn_nobanner \<lparr>nrnmpi_myid = 0, nrn_nobanner = 0, stderr = ''earlier'', host = [sk_reg]\<rparr>
   \<and> nrnmpi_myid (world_with 0 0) =
     nrnmpi_myid \<lparr>nrnmpi_myid = 0, nrn_nobanner = 0, stderr = ''earlier'', host = [sk_reg]\<rparr>
   \<and> events meddle (world_with 0 0) =
     events register
       \<lparr>nrnmpi_myid = 0, nrn_nobanner = 0, stderr = ''earlier'', host = [sk_reg]\<rparr>"
  using modl_reg_deterministic [of "world_with 0 0"
      "\<lparr>nrnmpi_myid = 0, nrn_nobanner = 0, stderr = ''earlier'', host = [sk_reg]\<rparr>"
      meddle register]
  by (simp add: world_with_def)

end
